theory Spec2Isabelle
  imports Main "HOL-Library.Word"
begin

section \<open>Native packets of TL firmwares: include/tio/packet.h\<close>

text \<open>
  A packet is a header, followed by a payload, followed by optional routing
  information. The header conveys the packet type and the sizes of the two
  following sections. The inline functions of \<^verbatim>\<open>packet.h\<close> are embedded
  here one by one, under their own names.
\<close>

subsection \<open>Data\<close>

type_synonym uint8_t = "8 word"
type_synonym uint16_t = "16 word"

text \<open>
  \<^verbatim>\<open>struct tl_packet_header { uint8_t type; uint8_t routing_size;
  uint16_t payload_size; } __attribute__((__packed__))\<close>.
\<close>

record tl_packet_header =
  type :: uint8_t
  routing_size :: uint8_t
  payload_size :: uint16_t

text \<open>
  The struct is packed, so \<^verbatim>\<open>sizeof(tl_packet_header)\<close> is 1 + 1 + 2 bytes.
\<close>

definition sizeof_tl_packet_header :: nat where
  "sizeof_tl_packet_header = 4"

definition TL_PACKET_MAX_SIZE :: nat where
  "TL_PACKET_MAX_SIZE = 512"

definition TL_PACKET_MAX_ROUTING_SIZE :: nat where
  "TL_PACKET_MAX_ROUTING_SIZE = 8"

definition TL_PACKET_MAX_PAYLOAD_SIZE :: nat where
  "TL_PACKET_MAX_PAYLOAD_SIZE =
     TL_PACKET_MAX_SIZE - sizeof_tl_packet_header - TL_PACKET_MAX_ROUTING_SIZE"

definition TL_PTYPE_STREAM0 :: int where
  "TL_PTYPE_STREAM0 = 128"

text \<open>
  Every function takes a \<^verbatim>\<open>tl_packet_header *\<close> and reaches the payload and
  the routing data by pointer arithmetic on \<^verbatim>\<open>(uint8_t*) pkt\<close>. A packet in
  memory is therefore the header together with a byte store addressed by the
  offset from \<^verbatim>\<open>(uint8_t*) pkt\<close>; a pointer into the packet is such an
  offset. The functions never bound the offsets they compute, so the store is
  not bounded either. The offsets below \<open>sizeof_tl_packet_header\<close> hold the
  header, which the record \<open>hdr\<close> represents; no function reads or writes
  the store there (\<open>routing_offset_ge_header\<close>).
\<close>

record tl_packet =
  hdr :: tl_packet_header
  mem :: "nat \<Rightarrow> uint8_t"

subsection \<open>Sizes and pointers\<close>

text \<open>
  \<^verbatim>\<open>return sizeof(*pkt) + pkt->payload_size + pkt->routing_size;\<close>
  The sum is computed in \<^verbatim>\<open>size_t\<close>. It is at most 4 + 65535 + 255, which
  a \<^verbatim>\<open>size_t\<close> of 32 bits or more holds without wrap-around, so the value
  is given as a natural number; for a header within capacity it is at most
  512 and fits every \<^verbatim>\<open>size_t\<close>.
\<close>

definition tl_packet_total_size :: "tl_packet_header \<Rightarrow> nat" where
  "tl_packet_total_size pkt =
     sizeof_tl_packet_header + unat (payload_size pkt) + unat (routing_size pkt)"

text \<open>\<^verbatim>\<open>return ((uint8_t*) pkt) + sizeof(*pkt);\<close>\<close>

definition tl_packet_payload_data :: "tl_packet_header \<Rightarrow> nat" where
  "tl_packet_payload_data pkt = sizeof_tl_packet_header"

text \<open>\<^verbatim>\<open>return ((uint8_t*) pkt) + sizeof(*pkt) + pkt->payload_size;\<close>\<close>

definition tl_packet_routing_data :: "tl_packet_header \<Rightarrow> nat" where
  "tl_packet_routing_data pkt = sizeof_tl_packet_header + unat (payload_size pkt)"

subsection \<open>The hop stack\<close>

text \<open>
  \<^verbatim>\<open>return (pkt->routing_size == 0) ? -1 :
    tl_packet_routing_data(pkt)[--pkt->routing_size];\<close>
  Returns the \<^verbatim>\<open>int\<close> result together with the packet as the call leaves
  it. The pre-decrement is on a \<^verbatim>\<open>uint8_t\<close>; the byte read is promoted to
  \<^verbatim>\<open>int\<close>.
\<close>

definition tl_packet_pop_hop :: "tl_packet \<Rightarrow> int \<times> tl_packet" where
  "tl_packet_pop_hop pkt =
     (if routing_size (hdr pkt) = 0 then (- 1, pkt)
      else
        let n = routing_size (hdr pkt) - 1;
            pkt' = pkt\<lparr>hdr := (hdr pkt)\<lparr>routing_size := n\<rparr>\<rparr>
        in (uint (mem pkt' (tl_packet_routing_data (hdr pkt') + unat n)), pkt'))"

text \<open>
  \<^verbatim>\<open>if (pkt->routing_size >= TL_PACKET_MAX_ROUTING_SIZE) return -1;
  tl_packet_routing_data(pkt)[pkt->routing_size++] = hop; return 0;\<close>
\<close>

definition tl_packet_push_hop :: "tl_packet \<Rightarrow> uint8_t \<Rightarrow> int \<times> tl_packet" where
  "tl_packet_push_hop pkt hop =
     (if TL_PACKET_MAX_ROUTING_SIZE \<le> unat (routing_size (hdr pkt)) then (- 1, pkt)
      else
        let n = routing_size (hdr pkt)
        in (0, pkt\<lparr>hdr := (hdr pkt)\<lparr>routing_size := n + 1\<rparr>,
                   mem := (mem pkt)(tl_packet_routing_data (hdr pkt) + unat n := hop)\<rparr>))"

text \<open>
  \<^verbatim>\<open>return (pkt->type >= TL_PTYPE_STREAM0) ? (pkt->type - TL_PTYPE_STREAM0) : -1;\<close>
  Both the comparison and the subtraction are on \<^verbatim>\<open>int\<close>.
\<close>

definition tl_packet_stream_id :: "tl_packet_header \<Rightarrow> int" where
  "tl_packet_stream_id pkt =
     (if TL_PTYPE_STREAM0 \<le> uint (type pkt) then uint (type pkt) - TL_PTYPE_STREAM0
      else - 1)"

subsection \<open>Calls on a packet in memory\<close>

text \<open>
  One call of a function of \<^verbatim>\<open>packet.h\<close> on a packet in memory, with the
  value it returns and the packet it leaves. \<open>tl_packet_total_size\<close> and
  \<open>tl_packet_stream_id\<close> take a pointer to \<^verbatim>\<open>const\<close>, and the two
  pointer functions consist of one \<^verbatim>\<open>return\<close> of an address: none of the
  four contains a store, so the packet they leave is the one they were given.
\<close>

datatype tl_op =
  Total_size | Payload_data | Routing_data | Pop_hop | Push_hop uint8_t | Stream_id

datatype tl_value = Ret_size nat | Ret_pointer nat | Ret_int int

fun tl_call :: "tl_op \<Rightarrow> tl_packet \<Rightarrow> tl_value \<times> tl_packet" where
  "tl_call Total_size pkt = (Ret_size (tl_packet_total_size (hdr pkt)), pkt)"
| "tl_call Payload_data pkt = (Ret_pointer (tl_packet_payload_data (hdr pkt)), pkt)"
| "tl_call Routing_data pkt = (Ret_pointer (tl_packet_routing_data (hdr pkt)), pkt)"
| "tl_call Pop_hop pkt = (case tl_packet_pop_hop pkt of (r, pkt') \<Rightarrow> (Ret_int r, pkt'))"
| "tl_call (Push_hop hop) pkt =
     (case tl_packet_push_hop pkt hop of (r, pkt') \<Rightarrow> (Ret_int r, pkt'))"
| "tl_call Stream_id pkt = (Ret_int (tl_packet_stream_id (hdr pkt)), pkt)"

text \<open>Repeated calls, as a relay or a builder makes them, with every result.\<close>

fun pop_hops :: "nat \<Rightarrow> tl_packet \<Rightarrow> int list \<times> tl_packet" where
  "pop_hops 0 pkt = ([], pkt)"
| "pop_hops (Suc k) pkt =
     (case tl_packet_pop_hop pkt of (r, pkt') \<Rightarrow>
        (case pop_hops k pkt' of (rs, pkt'') \<Rightarrow> (r # rs, pkt'')))"

fun push_hops :: "uint8_t list \<Rightarrow> tl_packet \<Rightarrow> int list \<times> tl_packet" where
  "push_hops [] pkt = ([], pkt)"
| "push_hops (hop # hops) pkt =
     (case tl_packet_push_hop pkt hop of (r, pkt') \<Rightarrow>
        (case push_hops hops pkt' of (rs, pkt'') \<Rightarrow> (r # rs, pkt'')))"

text \<open>A packet whose header and bytes are all zero.\<close>

definition zero_header :: tl_packet_header where
  "zero_header = \<lparr>type = 0, routing_size = 0, payload_size = 0\<rparr>"

definition zero_mem :: "nat \<Rightarrow> uint8_t" where
  "zero_mem i = 0"

definition zero_packet :: tl_packet where
  "zero_packet = \<lparr>hdr = zero_header, mem = zero_mem\<rparr>"

subsection \<open>Routing paths\<close>

text \<open>
  \<^verbatim>\<open>int tl_parse_routing(uint8_t *routing, const char *routing_path)\<close> is
  declared in \<^verbatim>\<open>packet.h\<close>, with the comment that it parses a string of
  the form "/3/1/" into a binary routing encoding which can be written
  directly to the routing data of a packet, leading and trailing '/'
  optional, and returns the number of hops or -1. The header holds the
  declaration only, so the definitions of this subsection follow the
  specification of the path parser. The result is the hop bytes, whose length
  is the number the C function returns, or the parse error, for which it
  returns -1.
\<close>

text \<open>
  Modelled from the spec: the body of \<^verbatim>\<open>tl_parse_routing\<close> is missing; the
  one failure of the spec's \<open>parse_path\<close>.
\<close>

datatype parse_error = ParseError

text \<open>
  Modelled from the spec: the body of \<^verbatim>\<open>tl_parse_routing\<close> is missing; this
  is its first step, "splits on /". A string with \<open>k\<close> slashes has
  \<open>k + 1\<close> segments, some of them possibly empty.
\<close>

fun split_slash :: "string \<Rightarrow> string list" where
  "split_slash [] = [[]]"
| "split_slash (c # cs) =
     (if c = CHR ''/'' then [] # split_slash cs
      else (case split_slash cs of
              [] \<Rightarrow> [[c]]
            | seg # segs \<Rightarrow> (c # seg) # segs))"

text \<open>
  Modelled from the spec: the body of \<^verbatim>\<open>tl_parse_routing\<close> is missing;
  "ignoring a single optional leading and/or trailing empty segment (produced
  by a leading/trailing slash)".
\<close>

definition path_segments :: "string \<Rightarrow> string list" where
  "path_segments s =
     (let segs = split_slash s;
          segs1 = (if segs \<noteq> [] \<and> hd segs = [] then tl segs else segs);
          segs2 = (if segs1 \<noteq> [] \<and> last segs1 = [] then butlast segs1 else segs1)
      in segs2)"

text \<open>
  Modelled from the spec: the body of \<^verbatim>\<open>tl_parse_routing\<close> is missing; a
  decimal digit is one of the characters '0' (48) to '9' (57).
\<close>

definition is_digit :: "char \<Rightarrow> bool" where
  "is_digit c = (48 \<le> (of_char c :: nat) \<and> (of_char c :: nat) \<le> 57)"

text \<open>
  Modelled from the spec: the body of \<^verbatim>\<open>tl_parse_routing\<close> is missing; the
  unsigned integer that a string of decimal digits denotes.
\<close>

definition decimal_value :: "string \<Rightarrow> nat" where
  "decimal_value seg = foldl (\<lambda>acc c. 10 * acc + (of_char c - 48)) 0 seg"

text \<open>
  Modelled from the spec: the body of \<^verbatim>\<open>tl_parse_routing\<close> is missing;
  "each remaining segment must parse as an unsigned integer in 0..255 (one
  byte)", and the parse fails "if any segment is empty (double slash),
  non-numeric, out of byte range".
\<close>

definition parse_segment :: "string \<Rightarrow> parse_error + uint8_t" where
  "parse_segment seg =
     (if seg = [] \<or> \<not> list_all is_digit seg \<or> 255 < decimal_value seg
      then Inl ParseError
      else Inr (of_nat (decimal_value seg)))"

text \<open>
  Modelled from the spec: the body of \<^verbatim>\<open>tl_parse_routing\<close> is missing;
  "produces hops in the order they appear left-to-right in the string", and
  one failing segment fails the whole parse.
\<close>

fun parse_segments :: "string list \<Rightarrow> parse_error + uint8_t list" where
  "parse_segments [] = Inr []"
| "parse_segments (seg # segs) =
     (case parse_segment seg of
        Inl e \<Rightarrow> Inl e
      | Inr hop \<Rightarrow>
          (case parse_segments segs of
             Inl e \<Rightarrow> Inl e
           | Inr hops \<Rightarrow> Inr (hop # hops)))"

text \<open>
  Modelled from the spec: the body of \<^verbatim>\<open>tl_parse_routing\<close> is missing; the
  spec's \<open>parse_path\<close>, which also fails "if the total hop count exceeds 8
  (capacity)".
\<close>

definition tl_parse_routing :: "string \<Rightarrow> parse_error + uint8_t list" where
  "tl_parse_routing routing_path =
     (let segs = path_segments routing_path
      in if TL_PACKET_MAX_ROUTING_SIZE < length segs then Inl ParseError
         else parse_segments segs)"

text \<open>
  The parsed bytes written directly to the routing data of a packet, as the
  comment on \<^verbatim>\<open>tl_parse_routing\<close> has it: byte \<open>i\<close> of the buffer goes to
  \<^verbatim>\<open>tl_packet_routing_data(pkt)[i]\<close>, and \<open>routing_size\<close> becomes the
  number of hops.
\<close>

definition install_routing :: "uint8_t list \<Rightarrow> tl_packet \<Rightarrow> tl_packet" where
  "install_routing routing pkt =
     pkt\<lparr>hdr := (hdr pkt)\<lparr>routing_size := of_nat (length routing)\<rparr>,
         mem := (\<lambda>i. if tl_packet_routing_data (hdr pkt) \<le> i
                        \<and> i < tl_packet_routing_data (hdr pkt) + length routing
                      then routing ! (i - tl_packet_routing_data (hdr pkt))
                      else mem pkt i)\<rparr>"

section \<open>Properties\<close>

subsection \<open>Single calls\<close>

lemma routing_offset_ge_header:
  "sizeof_tl_packet_header \<le> tl_packet_routing_data h + i"
  by (simp add: tl_packet_routing_data_def)

lemma push_hop_ok:
  assumes "unat (routing_size (hdr p)) < TL_PACKET_MAX_ROUTING_SIZE"
  shows "tl_packet_push_hop p b =
    (0, p\<lparr>hdr := (hdr p)\<lparr>routing_size := routing_size (hdr p) + 1\<rparr>,
          mem := (mem p)(tl_packet_routing_data (hdr p) + unat (routing_size (hdr p)) := b)\<rparr>)"
  using assms by (simp add: tl_packet_push_hop_def Let_def)

lemma push_hop_full:
  "TL_PACKET_MAX_ROUTING_SIZE \<le> unat (routing_size (hdr p)) \<Longrightarrow>
   tl_packet_push_hop p b = (- 1, p)"
  by (simp add: tl_packet_push_hop_def)

lemma unat_routing_size_Suc:
  assumes "unat (n :: uint8_t) < TL_PACKET_MAX_ROUTING_SIZE"
  shows "unat (n + 1) = Suc (unat n)"
  using assms by (simp add: TL_PACKET_MAX_ROUTING_SIZE_def unat_word_ariths)

lemma pop_hop_empty:
  "routing_size (hdr p) = 0 \<Longrightarrow> tl_packet_pop_hop p = (- 1, p)"
  by (simp add: tl_packet_pop_hop_def)

lemma pop_hop_ok:
  "routing_size (hdr p) \<noteq> 0 \<Longrightarrow> tl_packet_pop_hop p =
     (uint (mem p (tl_packet_routing_data (hdr p) + unat (routing_size (hdr p) - 1))),
      p\<lparr>hdr := (hdr p)\<lparr>routing_size := routing_size (hdr p) - 1\<rparr>\<rparr>)"
  by (simp add: tl_packet_pop_hop_def Let_def tl_packet_routing_data_def)

text \<open>
  Pushes that fit the capacity all return 0 and count up \<open>routing_size\<close>.
\<close>

lemma push_hops_ok:
  "unat (routing_size (hdr p)) + length hs \<le> TL_PACKET_MAX_ROUTING_SIZE \<Longrightarrow>
   fst (push_hops hs p) = replicate (length hs) 0
   \<and> unat (routing_size (hdr (snd (push_hops hs p))))
       = unat (routing_size (hdr p)) + length hs"
proof (induction hs arbitrary: p)
  case Nil
  then show ?case by simp
next
  case (Cons h hs)
  let ?q = "snd (tl_packet_push_hop p h)"
  from Cons.prems have lt: "unat (routing_size (hdr p)) < TL_PACKET_MAX_ROUTING_SIZE"
    by simp
  have q: "fst (tl_packet_push_hop p h) = 0"
    by (simp add: push_hop_ok [OF lt])
  have rq: "unat (routing_size (hdr ?q)) = Suc (unat (routing_size (hdr p)))"
    by (simp add: push_hop_ok [OF lt] unat_routing_size_Suc [OF lt])
  with Cons.prems
  have "unat (routing_size (hdr ?q)) + length hs \<le> TL_PACKET_MAX_ROUTING_SIZE"
    by simp
  from Cons.IH [OF this] rq q show ?case
    by (simp add: split_beta)
qed

lemma uint_type_of_nat:
  "n < 256 \<Longrightarrow> uint (of_nat n :: uint8_t) = int n"
  by (simp add: uint_nat unat_of_nat)

subsection \<open>The path parser and the hop stack\<close>

lemma parse_segments_Inr:
  "parse_segments segs = Inr hs \<Longrightarrow> map parse_segment segs = map Inr hs"
  by (induction segs arbitrary: hs) (auto split: sum.splits)

lemma parse_error_eq: "(e :: parse_error) = ParseError"
  by (cases e) simp

lemma parse_segments_fails:
  "seg \<in> set segs \<Longrightarrow> parse_segment seg = Inl ParseError \<Longrightarrow> parse_segments segs = Inl ParseError"
  by (induction segs) (auto split: sum.splits simp: parse_error_eq)

lemma tl_parse_routing_Inr:
  assumes "tl_parse_routing s = Inr hs"
  shows "map parse_segment (path_segments s) = map Inr hs" and "length hs \<le> 8"
proof -
  from assms have le: "length (path_segments s) \<le> 8"
    and ps: "parse_segments (path_segments s) = Inr hs"
    by (simp_all add: tl_parse_routing_def Let_def TL_PACKET_MAX_ROUTING_SIZE_def split: if_splits)
  from ps show m: "map parse_segment (path_segments s) = map Inr hs"
    by (rule parse_segments_Inr)
  from arg_cong [OF m, of length] le show "length hs \<le> 8" by simp
qed

lemma unat_pred:
  "(n :: uint8_t) \<noteq> 0 \<Longrightarrow> unat (n - 1) = unat n - 1"
  by (simp add: unat_minus_one)

lemma pop_hops_reads:
  "n \<le> unat (routing_size (hdr p)) \<Longrightarrow>
   fst (pop_hops n p) =
     map (\<lambda>k. uint (mem p (tl_packet_routing_data (hdr p)
                              + (unat (routing_size (hdr p)) - Suc k)))) [0..<n]"
proof (induction n arbitrary: p)
  case 0
  then show ?case by simp
next
  case (Suc n)
  let ?q = "p\<lparr>hdr := (hdr p)\<lparr>routing_size := routing_size (hdr p) - 1\<rparr>\<rparr>"
  from Suc.prems have ne: "routing_size (hdr p) \<noteq> 0"
    by auto
  have uq: "unat (routing_size (hdr ?q)) = unat (routing_size (hdr p)) - 1"
    using ne by (simp add: unat_pred)
  with Suc.prems have "n \<le> unat (routing_size (hdr ?q))"
    by simp
  from Suc.IH [OF this]
  have ih: "fst (pop_hops n ?q) =
      map (\<lambda>k. uint (mem p (tl_packet_routing_data (hdr p)
                 + (unat (routing_size (hdr p)) - Suc (Suc k))))) [0..<n]"
    by (simp add: unat_pred [OF ne] tl_packet_routing_data_def)
  have "fst (pop_hops (Suc n) p) =
      uint (mem p (tl_packet_routing_data (hdr p) + (unat (routing_size (hdr p)) - 1)))
      # fst (pop_hops n ?q)"
    by (simp add: pop_hop_ok [OF ne] split_beta unat_pred [OF ne])
  also have "\<dots> = map (\<lambda>k. uint (mem p (tl_packet_routing_data (hdr p)
                 + (unat (routing_size (hdr p)) - Suc k)))) (0 # map Suc [0..<n])"
    by (simp add: ih comp_def)
  also have "0 # map Suc [0..<n] = [0..<Suc n]"
    by (simp only: map_Suc_upt upt_conv_Cons [of 0 "Suc n"] zero_less_Suc if_True)
  finally show ?case .
qed

lemma install_routing_reads:
  "i < length hs \<Longrightarrow>
   mem (install_routing hs p) (tl_packet_routing_data (hdr p) + i) = hs ! i"
  by (simp add: install_routing_def)

lemma install_routing_size:
  "length hs \<le> 8 \<Longrightarrow> unat (routing_size (hdr (install_routing hs p))) = length hs"
  by (simp add: install_routing_def unat_of_nat)

lemma install_routing_data:
  "tl_packet_routing_data (hdr (install_routing hs p)) = tl_packet_routing_data (hdr p)"
  by (simp add: install_routing_def tl_packet_routing_data_def)

lemma pop_hops_install_routing:
  assumes "length hs \<le> 8"
  shows "fst (pop_hops (length hs) (install_routing hs p)) = map uint (rev hs)"
proof -
  let ?q = "install_routing hs p"
  have "length hs \<le> unat (routing_size (hdr ?q))"
    by (simp add: install_routing_size [OF assms])
  from pop_hops_reads [OF this]
  have "fst (pop_hops (length hs) ?q) =
      map (\<lambda>k. uint (mem ?q (tl_packet_routing_data (hdr p) + (length hs - Suc k))))
        [0..<length hs]"
    by (simp add: install_routing_size [OF assms] install_routing_data)
  also have "\<dots> = map uint (rev hs)"
    by (rule nth_equalityI) (simp_all add: install_routing_reads rev_nth)
  finally show ?thesis .
qed


text \<open>The definitions that evaluate a parse of a given string.\<close>

lemmas parse_eval =
  tl_parse_routing_def path_segments_def parse_segment_def is_digit_def decimal_value_def
  TL_PACKET_MAX_ROUTING_SIZE_def

subsection \<open>Claims\<close>

text \<open>
  C1. For every header whose fields are within capacity, that is
  \<open>routing_size \<le> 8\<close> and \<open>payload_size \<le> 512 - header size - 8\<close>,
  \<open>tl_packet_total_size\<close> returns header size + payload size + routing
  size, and this value never exceeds 512.
\<close>

theorem total_size_valid_header:
  assumes "unat (routing_size h) \<le> TL_PACKET_MAX_ROUTING_SIZE"
    and "unat (payload_size h) \<le> TL_PACKET_MAX_PAYLOAD_SIZE"
  shows "tl_packet_total_size h = 4 + unat (payload_size h) + unat (routing_size h)
    \<and> tl_packet_total_size h \<le> 512"
  using assms
  by (simp add: tl_packet_total_size_def sizeof_tl_packet_header_def
      TL_PACKET_MAX_ROUTING_SIZE_def TL_PACKET_MAX_PAYLOAD_SIZE_def TL_PACKET_MAX_SIZE_def)

theorem total_size_valid_header_witness:
  "unat (routing_size \<lparr>type = 1, routing_size = 8, payload_size = 500\<rparr>)
      \<le> TL_PACKET_MAX_ROUTING_SIZE
   \<and> unat (payload_size \<lparr>type = 1, routing_size = 8, payload_size = 500\<rparr>)
      \<le> TL_PACKET_MAX_PAYLOAD_SIZE
   \<and> tl_packet_total_size \<lparr>type = 1, routing_size = 8, payload_size = 500\<rparr> = 512"
  using total_size_valid_header [of "\<lparr>type = 1, routing_size = 8, payload_size = 500\<rparr>"]
  by (simp add: TL_PACKET_MAX_ROUTING_SIZE_def TL_PACKET_MAX_PAYLOAD_SIZE_def
      TL_PACKET_MAX_SIZE_def sizeof_tl_packet_header_def)

text \<open>
  C2. For every packet with \<open>routing_size < 8\<close> and every hop byte \<open>b\<close>,
  \<open>tl_packet_push_hop\<close> with \<open>b\<close>, immediately followed by
  \<open>tl_packet_pop_hop\<close>, succeeds, returns the same byte \<open>b\<close>, and leaves
  \<open>routing_size\<close> equal to its value before the push.
\<close>

theorem push_pop_round_trip:
  assumes "unat (routing_size (hdr p)) < 8"
  shows "fst (tl_packet_push_hop p b) = 0
    \<and> fst (tl_packet_pop_hop (snd (tl_packet_push_hop p b))) = uint b
    \<and> routing_size (hdr (snd (tl_packet_pop_hop (snd (tl_packet_push_hop p b)))))
        = routing_size (hdr p)"
proof -
  let ?q = "snd (tl_packet_push_hop p b)"
  from assms have lt: "unat (routing_size (hdr p)) < TL_PACKET_MAX_ROUTING_SIZE"
    by (simp add: TL_PACKET_MAX_ROUTING_SIZE_def)
  have "unat (routing_size (hdr ?q)) = Suc (unat (routing_size (hdr p)))"
    by (simp add: push_hop_ok [OF lt] unat_routing_size_Suc [OF lt])
  then have ne: "routing_size (hdr ?q) \<noteq> 0"
    by auto
  show ?thesis
    by (simp add: pop_hop_ok [OF ne])
      (simp add: push_hop_ok [OF lt] tl_packet_routing_data_def)
qed

theorem push_pop_round_trip_witness:
  "unat (routing_size (hdr zero_packet)) < 8
   \<and> fst (tl_packet_push_hop zero_packet 7) = 0
   \<and> fst (tl_packet_pop_hop (snd (tl_packet_push_hop zero_packet 7))) = 7
   \<and> routing_size (hdr (snd (tl_packet_pop_hop (snd (tl_packet_push_hop zero_packet 7)))))
       = 0"
  using push_pop_round_trip [of zero_packet 7]
  by (simp add: zero_packet_def zero_header_def)

text \<open>
  C3. For every packet with \<open>routing_size = 0\<close>, \<open>tl_packet_pop_hop\<close> fails
  (returns -1, the empty-routing result) and leaves the entire packet
  unchanged, and the failure is idempotent: any number \<open>n\<close> of repeated pops
  returns -1 every time and leaves the packet as it was.
\<close>

theorem pop_hop_empty_idempotent:
  assumes "routing_size (hdr p) = 0"
  shows "tl_packet_pop_hop p = (- 1, p) \<and> pop_hops n p = (replicate n (- 1), p)"
proof
  show e: "tl_packet_pop_hop p = (- 1, p)"
    using assms by (rule pop_hop_empty)
  show "pop_hops n p = (replicate n (- 1), p)"
    by (induction n) (simp_all add: e)
qed

theorem pop_hop_empty_idempotent_witness:
  "routing_size (hdr zero_packet) = 0
   \<and> tl_packet_pop_hop zero_packet = (- 1, zero_packet)
   \<and> pop_hops 3 zero_packet = ([- 1, - 1, - 1], zero_packet)"
  using pop_hop_empty_idempotent [of zero_packet 3]
  by (simp add: zero_packet_def zero_header_def eval_nat_numeral)

text \<open>
  C4. For every packet starting with \<open>routing_size = 0\<close>, a sequence of 8
  \<open>tl_packet_push_hop\<close> calls all succeed (each returns 0), and a 9th push
  fails (returns -1, the routing-full result) and leaves the packet, hence
  both the trailer bytes and \<open>routing_size\<close>, unchanged.
\<close>

theorem push_hops_capacity:
  assumes "routing_size (hdr p) = 0" and "length hs = 8"
  shows "fst (push_hops hs p) = replicate 8 0
    \<and> routing_size (hdr (snd (push_hops hs p))) = 8
    \<and> tl_packet_push_hop (snd (push_hops hs p)) h9 = (- 1, snd (push_hops hs p))"
proof -
  have "unat (routing_size (hdr p)) + length hs \<le> TL_PACKET_MAX_ROUTING_SIZE"
    using assms by (simp add: TL_PACKET_MAX_ROUTING_SIZE_def)
  from push_hops_ok [OF this] assms
  have r: "fst (push_hops hs p) = replicate 8 0"
    and n: "unat (routing_size (hdr (snd (push_hops hs p)))) = 8"
    by simp_all
  from n have n': "routing_size (hdr (snd (push_hops hs p))) = 8"
    by (simp add: word_unat_eq_iff)
  from n have "TL_PACKET_MAX_ROUTING_SIZE \<le> unat (routing_size (hdr (snd (push_hops hs p))))"
    by (simp add: TL_PACKET_MAX_ROUTING_SIZE_def)
  from r n' push_hop_full [OF this] show ?thesis by simp
qed

theorem push_hops_capacity_witness:
  "routing_size (hdr zero_packet) = 0 \<and> length [1, 2, 3, 4, 5, 6, 7, 8 :: uint8_t] = 8
   \<and> fst (push_hops [1, 2, 3, 4, 5, 6, 7, 8] zero_packet) = [0, 0, 0, 0, 0, 0, 0, 0]
   \<and> fst (tl_packet_push_hop (snd (push_hops [1, 2, 3, 4, 5, 6, 7, 8] zero_packet)) 9) = - 1"
  using push_hops_capacity [of zero_packet "[1, 2, 3, 4, 5, 6, 7, 8]" 9]
  by (simp add: zero_packet_def zero_header_def eval_nat_numeral)

text \<open>
  C5. For every \<open>N\<close> in 0..127, \<open>tl_packet_stream_id\<close> on a header with
  \<open>type = 128 + N\<close> returns \<open>N\<close>, and for every \<open>type\<close> in 0..127 it
  returns -1 ("not a stream"); the call leaves the packet as it was.
\<close>

theorem stream_id_range:
  "(\<forall>N<128. tl_packet_stream_id (h\<lparr>type := of_nat (128 + N)\<rparr>) = int N)
   \<and> (\<forall>t<128. tl_packet_stream_id (h\<lparr>type := of_nat t\<rparr>) = - 1)
   \<and> snd (tl_call Stream_id p) = p"
proof (intro conjI allI impI)
  fix N :: nat assume "N < 128"
  then have "uint (of_nat (128 + N) :: uint8_t) = int (128 + N)"
    by (simp only: uint_type_of_nat)
  then show "tl_packet_stream_id (h\<lparr>type := of_nat (128 + N)\<rparr>) = int N"
    by (simp add: tl_packet_stream_id_def TL_PTYPE_STREAM0_def)
next
  fix t :: nat assume "t < 128"
  then have "uint (of_nat t :: uint8_t) = int t"
    by (simp only: uint_type_of_nat)
  with \<open>t < 128\<close> show "tl_packet_stream_id (h\<lparr>type := of_nat t\<rparr>) = - 1"
    by (simp add: tl_packet_stream_id_def TL_PTYPE_STREAM0_def)
next
  show "snd (tl_call Stream_id p) = p" by simp
qed

theorem stream_id_range_witness:
  "(2::nat) < 128 \<and> tl_packet_stream_id (zero_header\<lparr>type := 130\<rparr>) = 2
   \<and> (6::nat) < 128 \<and> tl_packet_stream_id (zero_header\<lparr>type := 6\<rparr>) = - 1"
proof -
  note range = stream_id_range [of zero_header zero_packet]
  from range have "(2::nat) < 128 \<longrightarrow>
      tl_packet_stream_id (zero_header\<lparr>type := of_nat (128 + 2)\<rparr>) = int 2"
    by blast
  moreover from range have "(6::nat) < 128 \<longrightarrow>
      tl_packet_stream_id (zero_header\<lparr>type := of_nat 6\<rparr>) = - 1"
    by blast
  ultimately show ?thesis by simp
qed

text \<open>
  C6. For every packet, the payload region begins at the fixed offset equal to
  the header size (the same for every header), and the routing trailer begins
  at offset header size + \<open>payload_size\<close>: the routing offset is a function
  of the current \<open>payload_size\<close> alone, and two headers have the same routing
  offset exactly when they have the same \<open>payload_size\<close>, so the offset
  shifts whenever \<open>payload_size\<close> changes.
\<close>

theorem payload_and_routing_offsets:
  "tl_packet_payload_data h = 4
   \<and> tl_packet_payload_data h = tl_packet_payload_data h'
   \<and> tl_packet_routing_data h = 4 + unat (payload_size h)
   \<and> (tl_packet_routing_data h = tl_packet_routing_data h') = (payload_size h = payload_size h')"
  by (simp add: tl_packet_payload_data_def tl_packet_routing_data_def
      sizeof_tl_packet_header_def word_unat_eq_iff)

theorem payload_and_routing_offsets_witness:
  "tl_packet_routing_data (zero_header\<lparr>payload_size := 10\<rparr>) = 14
   \<and> tl_packet_routing_data (zero_header\<lparr>payload_size := 11\<rparr>) = 15
   \<and> tl_packet_routing_data (zero_header\<lparr>payload_size := 10\<rparr>)
       \<noteq> tl_packet_routing_data (zero_header\<lparr>payload_size := 11\<rparr>)
   \<and> tl_packet_payload_data (zero_header\<lparr>payload_size := 10\<rparr>)
       = tl_packet_payload_data (zero_header\<lparr>payload_size := 11\<rparr>)"
  using payload_and_routing_offsets
    [of "zero_header\<lparr>payload_size := 10\<rparr>" "zero_header\<lparr>payload_size := 11\<rparr>"]
    payload_and_routing_offsets
    [of "zero_header\<lparr>payload_size := 11\<rparr>" "zero_header\<lparr>payload_size := 10\<rparr>"]
  by simp

text \<open>
  C7. \<open>tl_packet_pop_hop\<close> and \<open>tl_packet_push_hop\<close> each change nothing but
  \<open>routing_size\<close> and one byte of the trailer region: \<open>type\<close>,
  \<open>payload_size\<close> and every payload byte are as before. The pop stores no
  byte at all; the push stores at most the byte at the trailer end, which lies
  within the 8 bytes from the routing offset. All other operations (total
  size, payload pointer, routing pointer, stream id) leave the packet as it
  was.
\<close>

theorem hop_stack_frame:
  "type (hdr (snd (tl_packet_pop_hop p))) = type (hdr p)
   \<and> payload_size (hdr (snd (tl_packet_pop_hop p))) = payload_size (hdr p)
   \<and> mem (snd (tl_packet_pop_hop p)) = mem p
   \<and> type (hdr (snd (tl_packet_push_hop p b))) = type (hdr p)
   \<and> payload_size (hdr (snd (tl_packet_push_hop p b))) = payload_size (hdr p)
   \<and> (\<forall>i. i \<noteq> tl_packet_routing_data (hdr p) + unat (routing_size (hdr p))
         \<longrightarrow> mem (snd (tl_packet_push_hop p b)) i = mem p i)
   \<and> (\<forall>i. i < tl_packet_routing_data (hdr p)
           \<or> tl_packet_routing_data (hdr p) + TL_PACKET_MAX_ROUTING_SIZE \<le> i
         \<longrightarrow> mem (snd (tl_packet_push_hop p b)) i = mem p i)
   \<and> (\<forall>i. tl_packet_payload_data (hdr p) \<le> i
           \<and> i < tl_packet_payload_data (hdr p) + unat (payload_size (hdr p))
         \<longrightarrow> mem (snd (tl_packet_push_hop p b)) i = mem p i)
   \<and> (\<forall>c \<in> {Total_size, Payload_data, Routing_data, Stream_id}. snd (tl_call c p) = p)"
proof (intro conjI)
  show "type (hdr (snd (tl_packet_pop_hop p))) = type (hdr p)"
    by (simp add: tl_packet_pop_hop_def Let_def)
  show "payload_size (hdr (snd (tl_packet_pop_hop p))) = payload_size (hdr p)"
    by (simp add: tl_packet_pop_hop_def Let_def)
  show "mem (snd (tl_packet_pop_hop p)) = mem p"
    by (simp add: tl_packet_pop_hop_def Let_def)
  show "type (hdr (snd (tl_packet_push_hop p b))) = type (hdr p)"
    by (simp add: tl_packet_push_hop_def Let_def)
  show "payload_size (hdr (snd (tl_packet_push_hop p b))) = payload_size (hdr p)"
    by (simp add: tl_packet_push_hop_def Let_def)
  show "\<forall>i. i \<noteq> tl_packet_routing_data (hdr p) + unat (routing_size (hdr p))
         \<longrightarrow> mem (snd (tl_packet_push_hop p b)) i = mem p i"
    by (simp add: tl_packet_push_hop_def Let_def)
  show "\<forall>i. i < tl_packet_routing_data (hdr p)
           \<or> tl_packet_routing_data (hdr p) + TL_PACKET_MAX_ROUTING_SIZE \<le> i
         \<longrightarrow> mem (snd (tl_packet_push_hop p b)) i = mem p i"
    by (auto simp add: tl_packet_push_hop_def Let_def)
  show "\<forall>i. tl_packet_payload_data (hdr p) \<le> i
           \<and> i < tl_packet_payload_data (hdr p) + unat (payload_size (hdr p))
         \<longrightarrow> mem (snd (tl_packet_push_hop p b)) i = mem p i"
    by (simp add: tl_packet_push_hop_def Let_def tl_packet_payload_data_def
        tl_packet_routing_data_def)
  show "\<forall>c \<in> {Total_size, Payload_data, Routing_data, Stream_id}. snd (tl_call c p) = p"
    by simp
qed

theorem hop_stack_frame_witness:
  "(5::nat) \<noteq> tl_packet_routing_data (hdr zero_packet) + unat (routing_size (hdr zero_packet))
   \<and> mem (snd (tl_packet_push_hop zero_packet 7)) 5 = mem zero_packet 5
   \<and> (20::nat) \<ge> tl_packet_routing_data (hdr zero_packet) + TL_PACKET_MAX_ROUTING_SIZE
   \<and> mem (snd (tl_packet_push_hop zero_packet 7)) 20 = mem zero_packet 20
   \<and> mem (snd (tl_packet_push_hop zero_packet 7)) 4 = 7
   \<and> Total_size \<in> {Total_size, Payload_data, Routing_data, Stream_id}
   \<and> snd (tl_call Total_size zero_packet) = zero_packet"
proof -
  note frame = hop_stack_frame [of zero_packet 7]
  from frame have "5 \<noteq> tl_packet_routing_data (hdr zero_packet)
        + unat (routing_size (hdr zero_packet))
      \<longrightarrow> mem (snd (tl_packet_push_hop zero_packet 7)) 5 = mem zero_packet 5"
    by blast
  moreover from frame have "20 < tl_packet_routing_data (hdr zero_packet)
        \<or> tl_packet_routing_data (hdr zero_packet) + TL_PACKET_MAX_ROUTING_SIZE \<le> 20
      \<longrightarrow> mem (snd (tl_packet_push_hop zero_packet 7)) 20 = mem zero_packet 20"
    by blast
  moreover from frame have "snd (tl_call Total_size zero_packet) = zero_packet"
    by blast
  moreover have "mem (snd (tl_packet_push_hop zero_packet 7)) 4 = 7"
    by (simp add: tl_packet_push_hop_def zero_packet_def zero_header_def
        tl_packet_routing_data_def sizeof_tl_packet_header_def TL_PACKET_MAX_ROUTING_SIZE_def)
  ultimately show ?thesis
    by (simp add: zero_packet_def zero_header_def tl_packet_routing_data_def
        sizeof_tl_packet_header_def TL_PACKET_MAX_ROUTING_SIZE_def)
qed

text \<open>
  C8, as stated, fails. The path "/3/1/" parses to the bytes 3, 1 in this
  order, and 3, the leftmost segment, is the first byte of the trailer; but
  \<open>tl_packet_pop_hop\<close> on the packet that carries these bytes returns 1, the
  rightmost segment.
\<close>

theorem parse_leftmost_first_popped_counterexample:
  "tl_parse_routing ''/3/1/'' = Inr [3, 1]
   \<and> mem (install_routing [3, 1] zero_packet) (tl_packet_routing_data (hdr zero_packet)) = 3
   \<and> fst (tl_packet_pop_hop (install_routing [3, 1] zero_packet)) = 1
   \<and> fst (tl_packet_pop_hop (install_routing [3, 1] zero_packet)) \<noteq> 3"
  by (simp add: parse_eval install_routing_def tl_packet_pop_hop_def Let_def
      zero_packet_def zero_header_def tl_packet_routing_data_def sizeof_tl_packet_header_def)

text \<open>
  C8, amended. \<open>tl_parse_routing\<close> gives the hops in the same left-to-right
  order as the segments of the path string, and installed as a packet's
  routing trailer they lie in that order from the routing offset, the leftmost
  segment being the first byte of the trailer. \<open>tl_packet_pop_hop\<close> returns
  the last byte of the trailer first: the first hop popped is the rightmost
  segment, and popping all hops returns them right to left, the leftmost
  segment last.
\<close>

theorem parse_order_pop_reversed:
  assumes "tl_parse_routing s = Inr hs"
  shows "map parse_segment (path_segments s) = map Inr hs
    \<and> (\<forall>i<length hs.
          mem (install_routing hs p)
            (tl_packet_routing_data (hdr (install_routing hs p)) + i) = hs ! i)
    \<and> (hs \<noteq> [] \<longrightarrow> fst (tl_packet_pop_hop (install_routing hs p)) = uint (last hs))
    \<and> fst (pop_hops (length hs) (install_routing hs p)) = map uint (rev hs)"
proof (intro conjI allI impI)
  note len = tl_parse_routing_Inr(2) [OF assms]
  show "map parse_segment (path_segments s) = map Inr hs"
    using assms by (rule tl_parse_routing_Inr(1))
  show "mem (install_routing hs p)
      (tl_packet_routing_data (hdr (install_routing hs p)) + i) = hs ! i"
    if "i < length hs" for i
    using that by (simp add: install_routing_data install_routing_reads)
  show "fst (pop_hops (length hs) (install_routing hs p)) = map uint (rev hs)"
    using len by (rule pop_hops_install_routing)
  show "fst (tl_packet_pop_hop (install_routing hs p)) = uint (last hs)" if "hs \<noteq> []"
  proof -
    from that have pos: "0 < length hs" by simp
    with install_routing_size [OF len, of p]
    have ne: "routing_size (hdr (install_routing hs p)) \<noteq> 0"
      by auto
    have "unat (routing_size (hdr (install_routing hs p)) - 1) = length hs - 1"
      by (simp add: unat_pred [OF ne] install_routing_size [OF len])
    then show ?thesis
      using pos
      by (simp add: pop_hop_ok [OF ne] install_routing_data install_routing_reads
          last_conv_nth [OF that])
  qed
qed

theorem parse_order_pop_reversed_witness:
  "tl_parse_routing ''/3/1/'' = Inr [3, 1]
   \<and> fst (tl_packet_pop_hop (install_routing [3, 1] zero_packet)) = 1
   \<and> fst (pop_hops 2 (install_routing [3, 1] zero_packet)) = [1, 3]"
proof -
  have parsed: "tl_parse_routing ''/3/1/'' = Inr [3, 1]"
    by (simp add: parse_eval)
  note order = parse_order_pop_reversed [OF parsed, of zero_packet]
  have len: "length [3, 1 :: uint8_t] = 2" and rev: "map uint (rev [3, 1 :: uint8_t]) = [1, 3]"
    by simp_all
  from order
  have "fst (pop_hops (length [3, 1 :: uint8_t]) (install_routing [3, 1] zero_packet))
      = map uint (rev [3, 1 :: uint8_t])"
    by blast
  then have all: "fst (pop_hops 2 (install_routing [3, 1] zero_packet)) = [1, 3]"
    by (simp only: len rev)
  from order
  have "[3, 1 :: uint8_t] \<noteq> [] \<longrightarrow>
      fst (tl_packet_pop_hop (install_routing [3, 1] zero_packet)) = uint (last [3, 1 :: uint8_t])"
    by blast
  then have "fst (tl_packet_pop_hop (install_routing [3, 1] zero_packet)) = 1"
    by simp
  with parsed all show ?thesis by blast
qed

text \<open>
  C9. \<open>tl_parse_routing\<close> of "/3/1/" and of "3/1" both yield the hop bytes
  3, 1; it fails with the parse error on an empty segment ("/3//1/", and any
  path with an empty segment left after the optional boundary slashes), on a
  value out of byte range ("/256/"), and on more than 8 hops
  ("/1/2/3/4/5/6/7/8/9/", and any path of more than 8 segments). The parse
  is atomic: one failing segment makes the whole result the error, which
  carries no hops, and every other result is the complete sequence, one hop
  per segment and at most 8 of them.
\<close>

theorem parse_routing_examples_atomic:
  "tl_parse_routing ''/3/1/'' = Inr [3, 1]
   \<and> tl_parse_routing ''3/1'' = Inr [3, 1]
   \<and> tl_parse_routing ''/3//1/'' = Inl ParseError
   \<and> tl_parse_routing ''/256/'' = Inl ParseError
   \<and> tl_parse_routing ''/1/2/3/4/5/6/7/8/9/'' = Inl ParseError
   \<and> (8 < length (path_segments s) \<longrightarrow> tl_parse_routing s = Inl ParseError)
   \<and> ([] \<in> set (path_segments s) \<longrightarrow> tl_parse_routing s = Inl ParseError)
   \<and> ((\<exists>seg \<in> set (path_segments s). parse_segment seg = Inl ParseError)
        \<longrightarrow> tl_parse_routing s = Inl ParseError)
   \<and> (tl_parse_routing s = Inl ParseError
        \<or> (\<exists>hs. tl_parse_routing s = Inr hs \<and> length hs \<le> 8
              \<and> map parse_segment (path_segments s) = map Inr hs))"
proof (intro conjI impI)
  show "tl_parse_routing ''/3/1/'' = Inr [3, 1]"
    by (simp add: parse_eval)
  show "tl_parse_routing ''3/1'' = Inr [3, 1]"
    by (simp add: parse_eval)
  show "tl_parse_routing ''/3//1/'' = Inl ParseError"
    by (simp add: parse_eval)
  show "tl_parse_routing ''/256/'' = Inl ParseError"
    by (simp add: parse_eval)
  show "tl_parse_routing ''/1/2/3/4/5/6/7/8/9/'' = Inl ParseError"
    by (simp add: parse_eval)
  show "tl_parse_routing s = Inl ParseError" if "8 < length (path_segments s)"
    using that by (simp add: tl_parse_routing_def TL_PACKET_MAX_ROUTING_SIZE_def)
  show fails: "tl_parse_routing s = Inl ParseError"
    if "\<exists>seg \<in> set (path_segments s). parse_segment seg = Inl ParseError"
    using that
    by (auto simp: tl_parse_routing_def Let_def intro: parse_segments_fails)
  show "tl_parse_routing s = Inl ParseError" if "[] \<in> set (path_segments s)"
  proof (rule fails)
    have "parse_segment [] = Inl ParseError"
      by (simp add: parse_segment_def)
    with that show "\<exists>seg \<in> set (path_segments s). parse_segment seg = Inl ParseError"
      by blast
  qed
  show "tl_parse_routing s = Inl ParseError
      \<or> (\<exists>hs. tl_parse_routing s = Inr hs \<and> length hs \<le> 8
            \<and> map parse_segment (path_segments s) = map Inr hs)"
  proof (cases "tl_parse_routing s")
    case (Inl e)
    then show ?thesis by (simp add: parse_error_eq)
  next
    case (Inr hs)
    from tl_parse_routing_Inr [OF this] Inr show ?thesis by simp
  qed
qed

theorem parse_routing_examples_atomic_witness:
  "8 < length (path_segments ''/1/2/3/4/5/6/7/8/9/'')
   \<and> tl_parse_routing ''/1/2/3/4/5/6/7/8/9/'' = Inl ParseError
   \<and> [] \<in> set (path_segments ''/3//1/'')
   \<and> parse_segment [] = Inl ParseError
   \<and> tl_parse_routing ''/3//1/'' = Inl ParseError
   \<and> tl_parse_routing ''/7/'' \<noteq> Inl ParseError
   \<and> tl_parse_routing ''/7/'' = Inr [7]
   \<and> map parse_segment (path_segments ''/7/'') = map Inr [7]"
proof -
  have nine: "8 < length (path_segments ''/1/2/3/4/5/6/7/8/9/'')"
    by (simp add: path_segments_def)
  have empty: "[] \<in> set (path_segments ''/3//1/'')"
    by (simp add: path_segments_def)
  have bad: "parse_segment [] = Inl ParseError"
    by (simp add: parse_segment_def)
  have seven: "tl_parse_routing ''/7/'' \<noteq> Inl ParseError"
    by (simp add: parse_eval)
  from nine parse_routing_examples_atomic [of "''/1/2/3/4/5/6/7/8/9/''"]
  have a: "tl_parse_routing ''/1/2/3/4/5/6/7/8/9/'' = Inl ParseError"
    by blast
  from empty parse_routing_examples_atomic [of "''/3//1/''"]
  have b: "tl_parse_routing ''/3//1/'' = Inl ParseError"
    by blast
  from seven parse_routing_examples_atomic [of "''/7/''"]
  obtain hs where hs: "tl_parse_routing ''/7/'' = Inr hs"
    and m: "map parse_segment (path_segments ''/7/'') = map Inr hs"
    by blast
  have "tl_parse_routing ''/7/'' = Inr [7]"
    by (simp add: parse_eval)
  with hs have "hs = [7]" by simp
  with hs m have c: "tl_parse_routing ''/7/'' = Inr [7]"
    and d: "map parse_segment (path_segments ''/7/'') = map Inr [7]"
    by simp_all
  from nine a empty bad b seven c d show ?thesis by blast
qed

text \<open>
  C10. \<open>tl_packet_push_hop\<close> succeeds (returns 0) if and only if
  \<open>routing_size < 8\<close>, and returns -1 otherwise. It makes no check of the
  total packet size: for every hop byte it succeeds, storing the byte and
  incrementing \<open>routing_size\<close>, even on a header whose \<open>payload_size\<close>
  exceeds the maximum payload capacity, where header size + \<open>payload_size\<close>
  + \<open>routing_size\<close> + 1 exceeds 512.
\<close>

theorem push_hop_no_total_size_check:
  "(fst (tl_packet_push_hop p b) = 0) = (unat (routing_size (hdr p)) < 8)
   \<and> (fst (tl_packet_push_hop p b) = - 1) = (8 \<le> unat (routing_size (hdr p)))
   \<and> (unat (routing_size (hdr p)) < 8
        \<and> TL_PACKET_MAX_PAYLOAD_SIZE < unat (payload_size (hdr p))
        \<and> TL_PACKET_MAX_SIZE
            < sizeof_tl_packet_header + unat (payload_size (hdr p))
              + unat (routing_size (hdr p)) + 1
      \<longrightarrow> fst (tl_packet_push_hop p b) = 0
        \<and> routing_size (hdr (snd (tl_packet_push_hop p b))) = routing_size (hdr p) + 1
        \<and> mem (snd (tl_packet_push_hop p b))
             (tl_packet_routing_data (hdr p) + unat (routing_size (hdr p))) = b)"
  by (simp add: tl_packet_push_hop_def Let_def TL_PACKET_MAX_ROUTING_SIZE_def)

theorem push_hop_no_total_size_check_witness:
  "unat (routing_size (hdr (zero_packet\<lparr>hdr := zero_header\<lparr>payload_size := 600\<rparr>\<rparr>))) < 8
   \<and> TL_PACKET_MAX_PAYLOAD_SIZE
       < unat (payload_size (hdr (zero_packet\<lparr>hdr := zero_header\<lparr>payload_size := 600\<rparr>\<rparr>)))
   \<and> TL_PACKET_MAX_SIZE < sizeof_tl_packet_header + 600 + 0 + 1
   \<and> fst (tl_packet_push_hop (zero_packet\<lparr>hdr := zero_header\<lparr>payload_size := 600\<rparr>\<rparr>) 7) = 0
   \<and> mem (snd (tl_packet_push_hop
              (zero_packet\<lparr>hdr := zero_header\<lparr>payload_size := 600\<rparr>\<rparr>) 7)) 604 = 7"
  using push_hop_no_total_size_check
    [of "zero_packet\<lparr>hdr := zero_header\<lparr>payload_size := 600\<rparr>\<rparr>" 7]
  by (simp add: zero_packet_def zero_header_def TL_PACKET_MAX_PAYLOAD_SIZE_def
      TL_PACKET_MAX_SIZE_def TL_PACKET_MAX_ROUTING_SIZE_def sizeof_tl_packet_header_def
      tl_packet_routing_data_def)

end
